theory Spec2Isabelle
  imports Main "HOL-Library.Sublist" "HOL-Library.Char_ord" "HOL-Library.List_Lexorder"
    "HOL-Library.AList"
begin

section \<open>Strings\<close>

text \<open>
  The script \<^verbatim>\<open>scripts/create_dunedaq_package.py\<close> works on Python \<^verbatim>\<open>str\<close> values that
  come from the command line. They are modelled as \<^typ>\<open>string\<close>, read as ASCII text:
  \<^verbatim>\<open>str.upper\<close> and \<^verbatim>\<open>str.lower\<close> map the 26 ASCII letters and leave every other character
  alone (Python's case mapping of non-ASCII letters is outside the model).
\<close>

definition ascii_lowercase :: string where
  "ascii_lowercase = ''abcdefghijklmnopqrstuvwxyz''"

definition ascii_uppercase :: string where
  "ascii_uppercase = ''ABCDEFGHIJKLMNOPQRSTUVWXYZ''"

definition upper_char :: "char \<Rightarrow> char" where
  "upper_char c = (case map_of (zip ascii_lowercase ascii_uppercase) c of None \<Rightarrow> c | Some u \<Rightarrow> u)"

definition lower_char :: "char \<Rightarrow> char" where
  "lower_char c = (case map_of (zip ascii_uppercase ascii_lowercase) c of None \<Rightarrow> c | Some l \<Rightarrow> l)"

definition upper :: "string \<Rightarrow> string" where
  "upper s = map upper_char s"

definition lower :: "string \<Rightarrow> string" where
  "lower s = map lower_char s"

text \<open>
  \<^verbatim>\<open>s.replace(old, new)\<close>: every occurrence of \<open>old\<close>, found scanning from the left and
  never overlapping, is replaced by \<open>new\<close>; text that a replacement inserted is not scanned
  again. For the empty \<open>old\<close> Python inserts \<open>new\<close> before every character and at the end.
  The third argument is the receiver \<open>s\<close>.
\<close>

fun py_replace :: "string \<Rightarrow> string \<Rightarrow> string \<Rightarrow> string" where
  "py_replace [] new s = new @ concat (map (\<lambda>c. c # new) s)"
| "py_replace (a # old) new [] = []"
| "py_replace (a # old) new (c # cs) =
     (if prefix (a # old) (c # cs)
      then new @ py_replace (a # old) new (drop (length old) cs)
      else c # py_replace (a # old) new cs)"

text \<open>\<^verbatim>\<open>t in s\<close> for strings: \<open>t\<close> occurs in \<open>s\<close> as a contiguous substring.\<close>

fun occurs :: "string \<Rightarrow> string \<Rightarrow> bool" where
  "occurs t [] = (t = [])"
| "occurs t (c # cs) = (prefix t (c # cs) \<or> occurs t cs)"

section \<open>The regular expressions of the script\<close>

text \<open>
  The script calls \<^verbatim>\<open>re.search\<close> with three patterns. A pattern of the fragment they need is a
  list of atoms, each a character class taken once or one-or-more times (\<^verbatim>\<open>+\<close>);
  \<open>match_here\<close> says whether some match of the atoms starts at the head of the text (greedy
  or not makes no difference to whether a match exists), \<open>search_from\<close> tries every start
  position as \<^verbatim>\<open>re.search\<close> does. A pattern that begins with \<^verbatim>\<open>^\<close> (no MULTILINE flag) can
  only match at position 0, which is \<open>match_here\<close> on the whole text.
\<close>

datatype quant = One | OneOrMore

type_synonym atom = "(char \<Rightarrow> bool) \<times> quant"

fun match_here :: "atom list \<Rightarrow> string \<Rightarrow> bool" where
  "match_here [] s = True"
| "match_here ((p, q) # as) [] = False"
| "match_here ((p, One) # as) (c # cs) = (p c \<and> match_here as cs)"
| "match_here ((p, OneOrMore) # as) (c # cs) =
     (p c \<and> (match_here ((p, OneOrMore) # as) cs \<or> match_here as cs))"

fun search_from :: "atom list \<Rightarrow> string \<Rightarrow> bool" where
  "search_from as [] = match_here as []"
| "search_from as (c # cs) = (match_here as (c # cs) \<or> search_from as cs)"

text \<open>Line 157: \<^verbatim>\<open>re.search(r"^[A-Z][^_]+", module)\<close>.\<close>

definition module_name_ok :: "string \<Rightarrow> bool" where
  "module_name_ok module =
     match_here [(\<lambda>c. c \<in> set ascii_uppercase, One), (\<lambda>c. c \<noteq> CHR ''_'', OneOrMore)] module"

text \<open>Lines 204 and 227: \<^verbatim>\<open>re.search(r"[A-Z]", user_app)\<close>.\<close>

definition has_uppercase :: "string \<Rightarrow> bool" where
  "has_uppercase name = search_from [(\<lambda>c. c \<in> set ascii_uppercase, One)] name"

text \<open>
  Line 100 builds its pattern from the package name: \<^verbatim>\<open>re.search(f"/{package}", repodir)\<close>.
  A character of the name is a pattern character: \<^verbatim>\<open>.\<close> matches anything but a newline, the
  other characters of a repository name (letters, digits, \<^verbatim>\<open>-\<close>, \<^verbatim>\<open>_\<close>) match themselves.
  \<open>pattern_atoms\<close> translates such a pattern; the remaining special characters of Python's
  regular expressions (\<open>re_special\<close>) are outside the fragment, and the statements about
  line 100 below are for names free of them (\<open>plain_name\<close>).
\<close>

definition re_special :: string where
  "re_special = ''^$*+?{}[]|()'' @ [CHR 0x5C]"

definition plain_name :: "string \<Rightarrow> bool" where
  "plain_name name = list_all (\<lambda>c. c \<notin> set re_special) name"

definition pattern_atom :: "char \<Rightarrow> atom" where
  "pattern_atom c = (if c = CHR ''.'' then (\<lambda>x. x \<noteq> CHR 0x0A, One) else (\<lambda>x. x = c, One))"

definition pattern_atoms :: "string \<Rightarrow> atom list" where
  "pattern_atoms pat = map pattern_atom pat"

section \<open>Template instantiation\<close>

text \<open>
  Lines 185 to 195, the five replacements applied to the text of a template, in the order
  of the source:
  \<^verbatim>\<open>sourcecode = sourcecode.replace("RenameMe", module)\<close>,
  \<^verbatim>\<open>sourcecode = sourcecode.replace("PACKAGE", package.upper())\<close>,
  \<^verbatim>\<open>sourcecode = sourcecode.replace("RENAMEME", module.upper())\<close>,
  \<^verbatim>\<open>sourcecode = sourcecode.replace("package", package.lower())\<close>,
  \<^verbatim>\<open>sourcecode = sourcecode.replace("renameme", module.lower())\<close>.
\<close>

definition instantiate :: "string \<Rightarrow> string \<Rightarrow> string \<Rightarrow> string" where
  "instantiate package module sourcecode =
     (let sourcecode = py_replace ''RenameMe'' module sourcecode;
          sourcecode = py_replace ''PACKAGE'' (upper package) sourcecode;
          sourcecode = py_replace ''RENAMEME'' (upper module) sourcecode;
          sourcecode = py_replace ''package'' (lower package) sourcecode;
          sourcecode = py_replace ''renameme'' (lower module) sourcecode
      in sourcecode)"

text \<open>The five placeholder tokens of the module templates.\<close>

definition placeholder_tokens :: "string list" where
  "placeholder_tokens = [''RenameMe'', ''PACKAGE'', ''RENAMEME'', ''package'', ''renameme'']"

section \<open>The file system\<close>

text \<open>
  A file system is a tree: a regular file with its text, or a directory with its entries.
  The entries are an association list, whose order stands for the arbitrary order of
  \<^verbatim>\<open>os.listdir\<close>; a real directory has no two entries of one name (\<open>well_formed\<close>). A path is a
  string; the operating system splits it at \<^verbatim>\<open>/\<close> and ignores empty components. All paths
  are resolved from the root of the tree, and the components \<^verbatim>\<open>.\<close> and \<^verbatim>\<open>..\<close> are not
  interpreted (the script builds no path with them unless a name argument has them).
\<close>

datatype node = File string | Dir "(string \<times> node) list"

type_synonym path = "string list"


fun components :: "string \<Rightarrow> string \<Rightarrow> path" where
  "components cur [] = (if cur = [] then [] else [cur])"
| "components cur (c # cs) =
     (if c = CHR ''/'' then (if cur = [] then [] else [cur]) @ components [] cs
      else components (cur @ [c]) cs)"

definition split_path :: "string \<Rightarrow> path" where
  "split_path p = components [] p"

text \<open>
  How a run ends when it does not reach its last line: \<open>Exit1\<close> is the helper
  \<^verbatim>\<open>error(...)\<close> of daq-buildtools (a message, then \<^verbatim>\<open>sys.exit(1)\<close>) and carries the file
  system the run leaves behind; \<open>AssertionError\<close> is a failed \<^verbatim>\<open>assert\<close>; \<open>OSError\<close> is
  any exception of a file operation (missing file, not a directory, is a directory). A
  file operation that raises changes nothing.
\<close>

datatype failure = Exit1 node | AssertionError | OSError

fun and_then :: "'e + 'a \<Rightarrow> ('a \<Rightarrow> 'e + 'b) \<Rightarrow> 'e + 'b" where
  "and_then (Inl e) f = Inl e"
| "and_then (Inr v) f = f v"

fun lookup :: "node \<Rightarrow> path \<Rightarrow> node option" where
  "lookup n [] = Some n"
| "lookup (File c) (x # p) = None"
| "lookup (Dir es) (x # p) = (case map_of es x of None \<Rightarrow> None | Some n \<Rightarrow> lookup n p)"

text \<open>\<open>at_path f fs p\<close> rewrites by \<open>f\<close> the node that the existing path \<open>p\<close> leads to.\<close>

fun at_path :: "(node \<Rightarrow> failure + node) \<Rightarrow> node \<Rightarrow> path \<Rightarrow> failure + node" where
  "at_path f n [] = f n"
| "at_path f (File c) (x # p) = Inl OSError"
| "at_path f (Dir es) (x # p) =
     (case map_of es x of
        None \<Rightarrow> Inl OSError
      | Some n \<Rightarrow> and_then (at_path f n p) (\<lambda>n'. Inr (Dir (AList.update x n' es))))"

text \<open>\<^verbatim>\<open>os.path.exists\<close>, \<^verbatim>\<open>os.listdir\<close> and reading a file.\<close>

definition path_exists :: "node \<Rightarrow> string \<Rightarrow> bool" where
  "path_exists fs p = (lookup fs (split_path p) \<noteq> None)"

definition listdir :: "node \<Rightarrow> string \<Rightarrow> failure + string list" where
  "listdir fs p =
     (case lookup fs (split_path p) of Some (Dir es) \<Rightarrow> Inr (map fst es) | _ \<Rightarrow> Inl OSError)"

definition read_file :: "node \<Rightarrow> string \<Rightarrow> string option" where
  "read_file fs p = (case lookup fs (split_path p) of Some (File c) \<Rightarrow> Some c | _ \<Rightarrow> None)"

text \<open>
  \<^verbatim>\<open>os.makedirs(dirname, exist_ok=True)\<close>: creates the directory and every missing
  ancestor; an existing directory is left as it is; a regular file on the way raises.
\<close>

fun makedirs_at :: "node \<Rightarrow> path \<Rightarrow> failure + node" where
  "makedirs_at (File c) p = Inl OSError"
| "makedirs_at (Dir es) [] = Inr (Dir es)"
| "makedirs_at (Dir es) (x # p) =
     and_then (makedirs_at (case map_of es x of None \<Rightarrow> Dir [] | Some n \<Rightarrow> n) p)
       (\<lambda>n'. Inr (Dir (AList.update x n' es)))"

definition makedirs :: "node \<Rightarrow> string \<Rightarrow> failure + node" where
  "makedirs fs dirname = makedirs_at fs (split_path dirname)"

text \<open>
  \<^verbatim>\<open>open(p, "w")\<close> followed by writing \<open>c\<close>: the parent must be a directory and \<open>p\<close> must
  not be one; the file is created or truncated.
\<close>

definition put_entry :: "string \<Rightarrow> string \<Rightarrow> node \<Rightarrow> failure + node" where
  "put_entry name c d =
     (case d of
        File _ \<Rightarrow> Inl OSError
      | Dir es \<Rightarrow> (case map_of es name of
                    Some (Dir _) \<Rightarrow> Inl OSError
                  | _ \<Rightarrow> Inr (Dir (AList.update name (File c) es))))"

definition write_file :: "node \<Rightarrow> string \<Rightarrow> string \<Rightarrow> failure + node" where
  "write_file fs p c =
     (case split_path p of
        [] \<Rightarrow> Inl OSError
      | x # xs \<Rightarrow> at_path (put_entry (last (x # xs)) c) fs (butlast (x # xs)))"

text \<open>\<^verbatim>\<open>shutil.rmtree(p)\<close>: \<open>p\<close> must be a directory; it goes with everything below it.\<close>

definition drop_dir :: "string \<Rightarrow> node \<Rightarrow> failure + node" where
  "drop_dir name d =
     (case d of
        File _ \<Rightarrow> Inl OSError
      | Dir es \<Rightarrow> (case map_of es name of
                    Some (Dir _) \<Rightarrow> Inr (Dir (AList.delete name es))
                  | _ \<Rightarrow> Inl OSError))"

definition rmtree :: "node \<Rightarrow> string \<Rightarrow> failure + node" where
  "rmtree fs p =
     (case split_path p of
        [] \<Rightarrow> Inl OSError
      | x # xs \<Rightarrow> at_path (drop_dir (last (x # xs))) fs (butlast (x # xs)))"

section \<open>The helpers of the script\<close>

text \<open>
  Lines 96 to 105, \<^verbatim>\<open>cleanup(repodir)\<close>; the global \<^verbatim>\<open>package\<close> is a parameter here.
  \<^verbatim>\<open>if os.path.exists(repodir):\<close> \<^verbatim>\<open>if re.search(f"/{package}", repodir): shutil.rmtree(repodir)\<close>
  \<^verbatim>\<open>else: assert False\<close> \<^verbatim>\<open>else: assert False\<close>.
\<close>

definition cleanup :: "string \<Rightarrow> node \<Rightarrow> string \<Rightarrow> failure + node" where
  "cleanup package fs repodir =
     (if path_exists fs repodir
      then (if search_from (pattern_atoms (''/'' @ package)) repodir
            then rmtree fs repodir
            else Inl AssertionError)
      else Inl AssertionError)"

text \<open>
  Lines 107 to 110, \<^verbatim>\<open>make_package_dir(dirname)\<close>:
  \<^verbatim>\<open>os.makedirs(dirname, exist_ok=True)\<close>, then
  \<^verbatim>\<open>if not os.path.exists(f"{dirname}/.gitkeep"): open(f"{dirname}/.gitkeep", "w")\<close>.
\<close>

definition make_package_dir :: "node \<Rightarrow> string \<Rightarrow> failure + node" where
  "make_package_dir fs dirname =
     and_then (makedirs fs dirname)
       (\<lambda>fs. if \<not> path_exists fs (dirname @ ''/.gitkeep'')
             then write_file fs (dirname @ ''/.gitkeep'') []
             else Inr fs)"

text \<open>
  The calls \<^verbatim>\<open>cleanup(repodir)\<close> and \<^verbatim>\<open>error(...)\<close> that end a run on a validation failure:
  when the cleanup raises, the run ends there; otherwise it exits with status 1.
\<close>

definition cleanup_and_exit :: "string \<Rightarrow> node \<Rightarrow> string \<Rightarrow> failure + 'a" where
  "cleanup_and_exit package fs repodir =
     (case cleanup package fs repodir of Inl e \<Rightarrow> Inl e | Inr fs' \<Rightarrow> Inl (Exit1 fs'))"

section \<open>The run\<close>

text \<open>
  What the script takes from outside itself is a parameter of the model: the source
  directory (\<^verbatim>\<open>DBT_AREA_ROOT\<close> followed by \<^verbatim>\<open>/sourcecode\<close>), the files of the template
  directory by name (they are read, never written), the date that \<^verbatim>\<open>get_time("as_date")\<close>
  returns, and the four shell commands run after the clone (\<^verbatim>\<open>git mv\<close>, \<^verbatim>\<open>curl\<close>,
  \<^verbatim>\<open>git add\<close>, \<^verbatim>\<open>git commit\<close>), each a function from the file system to its return value
  and the file system it leaves.
\<close>

record env =
  sourcedir :: string
  templates :: "string \<Rightarrow> string option"
  generation_time :: string
  git_mv :: "node \<Rightarrow> int \<times> node"
  curl :: "node \<Rightarrow> int \<times> node"
  git_add :: "node \<Rightarrow> int \<times> node"
  git_commit :: "node \<Rightarrow> int \<times> node"

text \<open>
  Lines 50 to 58, the command line. A list with \<^verbatim>\<open>action="append"\<close> is \<^verbatim>\<open>None\<close> when its
  flag never occurs; the script only tests such a list for truth and iterates over it, so
  the empty list stands for \<^verbatim>\<open>None\<close>.
\<close>

record args =
  contains_main_library :: bool
  contains_python_bindings :: bool
  daq_modules :: "string list"
  user_apps :: "string list"
  test_apps :: "string list"
  package :: string

datatype flag = MainLibrary | PythonBindings | DaqModule string | UserApp string | TestApp string

fun parse_flag :: "args \<Rightarrow> flag \<Rightarrow> args" where
  "parse_flag a MainLibrary = a\<lparr>contains_main_library := True\<rparr>"
| "parse_flag a PythonBindings = a\<lparr>contains_python_bindings := True\<rparr>"
| "parse_flag a (DaqModule name) = a\<lparr>daq_modules := daq_modules a @ [name]\<rparr>"
| "parse_flag a (UserApp name) = a\<lparr>user_apps := user_apps a @ [name]\<rparr>"
| "parse_flag a (TestApp name) = a\<lparr>test_apps := test_apps a @ [name]\<rparr>"

definition parse_args :: "flag list \<Rightarrow> string \<Rightarrow> args" where
  "parse_args flags pkg =
     foldl parse_flag
       \<lparr>contains_main_library = False, contains_python_bindings = False, daq_modules = [],
        user_apps = [], test_apps = [], package = pkg\<rparr> flags"

text \<open>Lines 122 to 128: the file system and the seven lists of calls.\<close>

record state =
  fs :: node
  find_package_calls :: "string list"
  daq_codegen_calls :: "string list"
  daq_add_library_calls :: "string list"
  daq_add_python_bindings_calls :: "string list"
  daq_add_plugin_calls :: "string list"
  daq_add_application_calls :: "string list"
  daq_add_unit_test_calls :: "string list"

definition initial_state :: "node \<Rightarrow> state" where
  "initial_state f =
     \<lparr>fs = f, find_package_calls = [], daq_codegen_calls = [], daq_add_library_calls = [],
      daq_add_python_bindings_calls = [], daq_add_plugin_calls = [],
      daq_add_application_calls = [], daq_add_unit_test_calls = []\<rparr>"

text \<open>
  Line 114, after the clone:
  \<^verbatim>\<open>if os.listdir(repodir) != [".git"] and sorted(os.listdir(repodir)) != [".git", "README.md"]\<close>
  \<^verbatim>\<open>and sorted(os.listdir(repodir)) != [".git", "docs"]: cleanup(repodir); error(...)\<close>.
\<close>

definition post_clone_check :: "string \<Rightarrow> string \<Rightarrow> node \<Rightarrow> failure + node" where
  "post_clone_check pkg repodir f =
     and_then (listdir f repodir)
       (\<lambda>names. if names \<noteq> [''.git''] \<and> sort names \<noteq> [''.git'', ''README.md'']
                    \<and> sort names \<noteq> [''.git'', ''docs'']
                 then cleanup_and_exit pkg f repodir
                 else Inr f)"

text \<open>\<^verbatim>\<open>shutil.copyfile\<close> from the template directory.\<close>

definition copyfile :: "env \<Rightarrow> node \<Rightarrow> string \<Rightarrow> string \<Rightarrow> failure + node" where
  "copyfile e f src_filename dest =
     (case templates e src_filename of None \<Rightarrow> Inl OSError | Some c \<Rightarrow> write_file f dest c)"

text \<open>Lines 132 to 135, \<^verbatim>\<open>--main-library\<close>.\<close>

definition main_library :: "string \<Rightarrow> state \<Rightarrow> failure + state" where
  "main_library repodir st =
     and_then (make_package_dir (fs st) (repodir @ ''/src'')) (\<lambda>f.
     and_then (make_package_dir f (repodir @ ''/include'')) (\<lambda>f.
     Inr (st\<lparr>fs := f, daq_add_library_calls := daq_add_library_calls st @
       [''daq_add_library( LINK_LIBRARIES ) # Any source files and/or dependent libraries to link in not yet determined'']\<rparr>)))"

text \<open>Lines 137 to 142, \<^verbatim>\<open>--python-bindings\<close>.\<close>

fun copy_bindings :: "env \<Rightarrow> string \<Rightarrow> string list \<Rightarrow> node \<Rightarrow> failure + node" where
  "copy_bindings e repodir [] f = Inr f"
| "copy_bindings e repodir (src_filename # rest) f =
     and_then (copyfile e f src_filename (repodir @ ''/pybindsrc/'' @ src_filename))
       (copy_bindings e repodir rest)"

definition python_bindings :: "env \<Rightarrow> string \<Rightarrow> state \<Rightarrow> failure + state" where
  "python_bindings e repodir st =
     and_then (make_package_dir (fs st) (repodir @ ''/pybindsrc'')) (\<lambda>f.
     and_then (copy_bindings e repodir [''module.cpp'', ''renameme.cpp''] f) (\<lambda>f.
     Inr (st\<lparr>fs := f, daq_add_python_bindings_calls := daq_add_python_bindings_calls st @
       [''\<newline>daq_add_python_bindings(*.cpp LINK_LIBRARIES ${PROJECT_NAME} ) # Any additional libraries to link in beyond the main library not yet determined\<newline>'']\<rparr>)))"

text \<open>
  \<^verbatim>\<open>pathlib.Path(src_filename).suffix\<close> for a name without \<^verbatim>\<open>/\<close>: from the last dot on,
  unless there is no dot, or the last dot is the first or the last character.
\<close>

definition path_suffix :: "string \<Rightarrow> string" where
  "path_suffix name =
     (let ext = rev (takeWhile (\<lambda>c. c \<noteq> CHR ''.'') (rev name))
      in if CHR ''.'' \<in> set name \<and> ext \<noteq> [] \<and> Suc (length ext) < length name
         then CHR ''.'' # ext else [])"

text \<open>Lines 171 to 178: where the copy of a module template goes.\<close>

definition dest_filename :: "string \<Rightarrow> string \<Rightarrow> string \<Rightarrow> string \<Rightarrow> failure + string" where
  "dest_filename pkg repodir module src_filename =
     (if path_suffix src_filename \<in> set [''.hpp'', ''.cpp'']
      then Inr (repodir @ ''/plugins/'' @ py_replace ''RenameMe'' module src_filename)
      else if path_suffix src_filename \<in> set [''.jsonnet'']
      then Inr (repodir @ ''/schema/'' @ pkg @ ''/'' @ py_replace ''renameme'' (lower module) src_filename)
      else Inl AssertionError)"

text \<open>
  Lines 169 to 198, the body of the loop over the four module templates: the template is
  copied to its destination, read, instantiated, and the destination is written again.
\<close>

definition module_file :: "env \<Rightarrow> string \<Rightarrow> string \<Rightarrow> string \<Rightarrow> node \<Rightarrow> string \<Rightarrow> failure + node" where
  "module_file e pkg repodir module f src_filename =
     and_then (dest_filename pkg repodir module src_filename) (\<lambda>dest.
     and_then (copyfile e f src_filename dest) (\<lambda>f.
     (case templates e src_filename of
        None \<Rightarrow> Inl OSError
      | Some sourcecode \<Rightarrow> write_file f dest (instantiate pkg module sourcecode))))"

fun module_files :: "env \<Rightarrow> string \<Rightarrow> string \<Rightarrow> string \<Rightarrow> string list \<Rightarrow> node \<Rightarrow> failure + node" where
  "module_files e pkg repodir module [] f = Inr f"
| "module_files e pkg repodir module (src_filename # rest) f =
     and_then (module_file e pkg repodir module f src_filename)
       (module_files e pkg repodir module rest)"

definition module_templates :: "string list" where
  "module_templates = [''RenameMe.hpp'', ''RenameMe.cpp'', ''renameme.jsonnet'', ''renamemeinfo.jsonnet'']"

text \<open>Lines 157 to 198, the body of the loop over \<^verbatim>\<open>args.daq_modules\<close>.\<close>

definition daq_module :: "env \<Rightarrow> string \<Rightarrow> string \<Rightarrow> state \<Rightarrow> string \<Rightarrow> failure + state" where
  "daq_module e pkg repodir st module =
     (if \<not> module_name_ok module then cleanup_and_exit pkg (fs st) repodir
      else
        let st = st\<lparr>daq_add_plugin_calls := daq_add_plugin_calls st @
                     [''daq_add_plugin('' @ module @ '' duneDAQModule LINK_LIBRARIES appfwk::appfwk) # Replace appfwk library with a more specific library when appropriate''],
                   daq_codegen_calls := daq_codegen_calls st @
                     [''daq_codegen('' @ lower module @ ''.jsonnet TEMPLATES Structs.hpp.j2 Nljs.hpp.j2)'',
                      ''daq_codegen('' @ lower module @ ''info.jsonnet DEP_PKGS opmonlib TEMPLATES opmonlib/InfoStructs.hpp.j2 opmonlib/InfoNljs.hpp.j2)'']\<rparr>
        in and_then (module_files e pkg repodir module module_templates (fs st))
             (\<lambda>f. Inr (st\<lparr>fs := f\<rparr>)))"

fun daq_module_loop :: "env \<Rightarrow> string \<Rightarrow> string \<Rightarrow> string list \<Rightarrow> state \<Rightarrow> failure + state" where
  "daq_module_loop e pkg repodir [] st = Inr st"
| "daq_module_loop e pkg repodir (module # rest) st =
     and_then (daq_module e pkg repodir st module) (daq_module_loop e pkg repodir rest)"

text \<open>Lines 144 to 198, \<^verbatim>\<open>--daq-module\<close>.\<close>

definition daq_modules_stage :: "env \<Rightarrow> string \<Rightarrow> string \<Rightarrow> string list \<Rightarrow> state \<Rightarrow> failure + state" where
  "daq_modules_stage e pkg repodir modules st =
     (if templates e ''RenameMe.hpp'' = None \<or> templates e ''RenameMe.cpp'' = None
      then Inl AssertionError
      else
        let st = st\<lparr>find_package_calls := find_package_calls st @
                     map (\<lambda>p. ''find_package('' @ p @ '' REQUIRED)'') [''appfwk'', ''opmonlib'']\<rparr>
        in and_then (make_package_dir (fs st) (repodir @ ''/src'')) (\<lambda>f.
           and_then (make_package_dir f (repodir @ ''/plugins'')) (\<lambda>f.
           and_then (make_package_dir f (repodir @ ''/schema/'' @ pkg)) (\<lambda>f.
           daq_module_loop e pkg repodir modules (st\<lparr>fs := f\<rparr>)))))"

text \<open>
  Lines 203 to 220 and 226 to 243, the bodies of the loops over the user applications
  and the test applications; they differ in the directory and in the call they append.
\<close>

definition application :: "env \<Rightarrow> string \<Rightarrow> string \<Rightarrow> string \<Rightarrow> string \<Rightarrow> state \<Rightarrow> string \<Rightarrow> failure + state" where
  "application e pkg repodir subdir tag st app =
     (if has_uppercase app then cleanup_and_exit pkg (fs st) repodir
      else
        (case templates e ''renameme.cxx'' of
           None \<Rightarrow> Inl OSError
         | Some sourcecode \<Rightarrow>
             and_then (write_file (fs st) (repodir @ ''/'' @ subdir @ ''/'' @ app @ ''.cxx'')
                         (py_replace ''renameme'' app sourcecode)) (\<lambda>f.
             Inr (st\<lparr>fs := f, daq_add_application_calls := daq_add_application_calls st @
               [''daq_add_application('' @ app @ '' '' @ app @ ''.cxx '' @ tag @ ''LINK_LIBRARIES ) # Any libraries to link in not yet determined'']\<rparr>))))"

fun application_loop :: "env \<Rightarrow> string \<Rightarrow> string \<Rightarrow> string \<Rightarrow> string \<Rightarrow> string list \<Rightarrow> state \<Rightarrow> failure + state" where
  "application_loop e pkg repodir subdir tag [] st = Inr st"
| "application_loop e pkg repodir subdir tag (app # rest) st =
     and_then (application e pkg repodir subdir tag st app)
       (application_loop e pkg repodir subdir tag rest)"

text \<open>Lines 200 to 220, \<^verbatim>\<open>--user-app\<close>, and lines 223 to 243, \<^verbatim>\<open>--test-app\<close>.\<close>

definition user_apps_stage :: "env \<Rightarrow> string \<Rightarrow> string \<Rightarrow> string list \<Rightarrow> state \<Rightarrow> failure + state" where
  "user_apps_stage e pkg repodir apps st =
     and_then (make_package_dir (fs st) (repodir @ ''/apps'')) (\<lambda>f.
     application_loop e pkg repodir ''apps'' [] apps (st\<lparr>fs := f\<rparr>))"

definition test_apps_stage :: "env \<Rightarrow> string \<Rightarrow> string \<Rightarrow> string list \<Rightarrow> state \<Rightarrow> failure + state" where
  "test_apps_stage e pkg repodir apps st =
     and_then (make_package_dir (fs st) (repodir @ ''/test/apps'')) (\<lambda>f.
     application_loop e pkg repodir ''test/apps'' ''TEST '' apps (st\<lparr>fs := f\<rparr>))"

text \<open>Lines 245 to 248, the unit test that every package gets.\<close>

definition unittest_stage :: "env \<Rightarrow> string \<Rightarrow> state \<Rightarrow> failure + state" where
  "unittest_stage e repodir st =
     and_then (make_package_dir (fs st) (repodir @ ''/unittest'')) (\<lambda>f.
     and_then (copyfile e f ''Placeholder_test.cxx'' (repodir @ ''/unittest/Placeholder_test.cxx'')) (\<lambda>f.
     Inr (st\<lparr>fs := f,
             daq_add_unit_test_calls := daq_add_unit_test_calls st @
               [''daq_add_unit_test(Placeholder_test LINK_LIBRARIES)  # Any libraries to link in not yet determined''],
             find_package_calls := find_package_calls st @
               [''find_package(Boost COMPONENTS unit_test_framework REQUIRED)'']\<rparr>)))"

text \<open>Lines 132 to 248: the features in the order of the script.\<close>

definition when_set :: "bool \<Rightarrow> (state \<Rightarrow> failure + state) \<Rightarrow> state \<Rightarrow> failure + state" where
  "when_set b stage st = (if b then stage st else Inr st)"

definition scaffold :: "env \<Rightarrow> args \<Rightarrow> string \<Rightarrow> state \<Rightarrow> failure + state" where
  "scaffold e a repodir st =
     and_then (when_set (contains_main_library a) (main_library repodir) st) (\<lambda>st.
     and_then (when_set (contains_python_bindings a) (python_bindings e repodir) st) (\<lambda>st.
     and_then (when_set (daq_modules a \<noteq> [])
                 (daq_modules_stage e (package a) repodir (daq_modules a)) st) (\<lambda>st.
     and_then (when_set (user_apps a \<noteq> [])
                 (user_apps_stage e (package a) repodir (user_apps a)) st) (\<lambda>st.
     and_then (when_set (test_apps a \<noteq> [])
                 (test_apps_stage e (package a) repodir (test_apps a)) st) (\<lambda>st.
     unittest_stage e repodir st)))))"

text \<open>
  Lines 250 to 262, the documentation directory: a dated place holder, or the README.md
  of the clone moved by \<^verbatim>\<open>git mv README.md docs/README.md\<close>.
\<close>

definition docs_stage :: "env \<Rightarrow> string \<Rightarrow> string \<Rightarrow> state \<Rightarrow> failure + state" where
  "docs_stage e pkg repodir st =
     and_then (make_package_dir (fs st) (repodir @ ''/docs'')) (\<lambda>f.
     if \<not> path_exists f (repodir @ ''/README.md'')
     then and_then (write_file f (repodir @ ''/docs/README.md'')
                      (''# No Official User Documentation Has Been Written Yet ('' @ generation_time e @ '')\<newline>''))
            (\<lambda>f. Inr (st\<lparr>fs := f\<rparr>))
     else (case git_mv e f of
             (retval, f) \<Rightarrow> if retval \<noteq> 0 then cleanup_and_exit pkg f repodir
                            else Inr (st\<lparr>fs := f\<rparr>)))"

text \<open>Lines 264 to 272, the configuration template fetched by \<^verbatim>\<open>curl\<close>.\<close>

definition cmake_stage :: "env \<Rightarrow> string \<Rightarrow> string \<Rightarrow> state \<Rightarrow> failure + state" where
  "cmake_stage e pkg repodir st =
     and_then (make_package_dir (fs st) (repodir @ ''/cmake'')) (\<lambda>f.
     (case curl e f of
        (retval, f) \<Rightarrow> if retval \<noteq> 0 then cleanup_and_exit pkg f repodir
                       else Inr (st\<lparr>fs := f\<rparr>)))"

text \<open>
  Lines 274 to 285, \<^verbatim>\<open>print_cmakelists_section\<close>, as the text it writes: before the first
  call the link to the documentation when a section name is given, each call on a line of
  its own, and the divider after a list that is not empty.
\<close>

definition divider :: string where
  "divider = ''\<newline>\<newline>##############################################################################\<newline>\<newline>''"

definition print_cmakelists_section :: "string list \<Rightarrow> string option \<Rightarrow> string" where
  "print_cmakelists_section list_of_calls section_of_webpage =
     concat (map (\<lambda>(i, line).
               (case section_of_webpage of
                  Some name \<Rightarrow>
                    if i = 0
                    then ''\<newline># See https://dune-daq-sw.readthedocs.io/en/latest/packages/daq-cmake/#'' @ name @ ''\<newline>''
                    else []
                | None \<Rightarrow> []) @ ''\<newline>'' @ line)
             (List.enumerate 0 list_of_calls))
     @ (if length list_of_calls > 0 then divider else [])"

text \<open>Lines 289 to 305, the head of the file.\<close>

definition preamble :: "string \<Rightarrow> string \<Rightarrow> string" where
  "preamble time pkg =
     ''\<newline>\<newline># This is a skeleton CMakeLists.txt file, auto-generated on '' @ time @ ''. \<newline>'' @
     ''# The developer(s) of this package should delete this comment as well\<newline>'' @
     ''# as adding dependent targets, packages, etc.  which the\<newline>'' @
     ''# auto-generator can'' @ [CHR 0x27] @ ''t know about. For details on how to write a\<newline>'' @
     ''# package, please see\<newline>'' @
     ''# https://dune-daq-sw.readthedocs.io/en/latest/packages/daq-cmake/\<newline>'' @
     ''\<newline>cmake_minimum_required(VERSION 3.12)\<newline>'' @
     ''project('' @ pkg @ '' VERSION 0.0.0)\<newline>'' @
     ''\<newline>find_package(daq-cmake REQUIRED)\<newline>'' @
     ''\<newline>daq_setup_environment()\<newline>\<newline>''"

text \<open>Lines 287 to 315: everything written to \<^verbatim>\<open>CMakeLists.txt\<close>, in the order of the writes.\<close>

definition cmakelists_text :: "string \<Rightarrow> string \<Rightarrow> state \<Rightarrow> string" where
  "cmakelists_text time pkg st =
     preamble time pkg @
     print_cmakelists_section (find_package_calls st) None @
     print_cmakelists_section (daq_codegen_calls st) (Some ''daq_codegen'') @
     print_cmakelists_section (daq_add_library_calls st) (Some ''daq_add_library'') @
     print_cmakelists_section (daq_add_python_bindings_calls st) (Some ''daq_add_python_bindings'') @
     print_cmakelists_section (daq_add_plugin_calls st) (Some ''daq_add_plugin'') @
     print_cmakelists_section (daq_add_application_calls st) (Some ''daq_add_application'') @
     print_cmakelists_section (daq_add_unit_test_calls st) (Some ''daq_add_unit_test'') @
     ''daq_install()\<newline>\<newline>''"

definition cmakelists_stage :: "env \<Rightarrow> string \<Rightarrow> string \<Rightarrow> state \<Rightarrow> failure + state" where
  "cmakelists_stage e pkg repodir st =
     and_then (write_file (fs st) (repodir @ ''/CMakeLists.txt'')
                 (cmakelists_text (generation_time e) pkg st))
       (\<lambda>f. Inr (st\<lparr>fs := f\<rparr>))"

text \<open>
  Lines 320 to 323, the sweep of the place holders:
  \<^verbatim>\<open>for filename, ignored, ignored in os.walk(repodir):\<close>
  \<^verbatim>\<open>if os.path.isdir(filename) and os.listdir(filename) != [".gitkeep"]:\<close>
  \<^verbatim>\<open>if os.path.exists(f"{filename}/.gitkeep"): os.unlink(f"{filename}/.gitkeep")\<close>.
  The walk is top-down: a directory is handled before its subdirectories, which it lists
  before the body runs. \<^verbatim>\<open>os.unlink\<close> raises on a directory.
\<close>

function (sequential) sweep :: "node \<Rightarrow> failure + node"
  and sweep_entries :: "(string \<times> node) list \<Rightarrow> failure + (string \<times> node) list" where
  "sweep (File c) = Inr (File c)"
| "sweep (Dir es) =
     (if map fst es \<noteq> [''.gitkeep'']
      then (case map_of es ''.gitkeep'' of
              None \<Rightarrow> and_then (sweep_entries es) (\<lambda>es'. Inr (Dir es'))
            | Some (File c) \<Rightarrow>
                and_then (sweep_entries (AList.delete ''.gitkeep'' es)) (\<lambda>es'. Inr (Dir es'))
            | Some (Dir d) \<Rightarrow> Inl OSError)
      else and_then (sweep_entries es) (\<lambda>es'. Inr (Dir es')))"
| "sweep_entries [] = Inr []"
| "sweep_entries ((name, n) # es) =
     and_then (sweep n) (\<lambda>n'. and_then (sweep_entries es) (\<lambda>es'. Inr ((name, n') # es')))"
  by pat_completeness auto
termination
proof -
  have smaller: "size_list f (AList.delete k es) \<le> size_list f es"
    for f :: "string \<times> node \<Rightarrow> nat" and k es
    by (induction es) auto
  show ?thesis
    by (relation "measure (case_sum size (size_list (size_prod (\<lambda>_. 0) size)))")
       (auto simp: le_imp_less_Suc smaller)
qed

definition sweep_stage :: "string \<Rightarrow> state \<Rightarrow> failure + state" where
  "sweep_stage repodir st =
     and_then (at_path sweep (fs st) (split_path repodir)) (\<lambda>f. Inr (st\<lparr>fs := f\<rparr>))"

text \<open>
  Lines 325 to 342, \<^verbatim>\<open>git add -A\<close> and \<^verbatim>\<open>git commit\<close>: a failure exits without cleanup.
\<close>

definition shell_stage :: "(node \<Rightarrow> int \<times> node) \<Rightarrow> state \<Rightarrow> failure + state" where
  "shell_stage command st =
     (case command (fs st) of
        (retval, f) \<Rightarrow> if retval \<noteq> 0 then Inl (Exit1 f) else Inr (st\<lparr>fs := f\<rparr>))"

definition finalize :: "env \<Rightarrow> string \<Rightarrow> string \<Rightarrow> state \<Rightarrow> failure + state" where
  "finalize e pkg repodir st =
     and_then (docs_stage e pkg repodir st) (\<lambda>st.
     and_then (cmake_stage e pkg repodir st) (\<lambda>st.
     and_then (cmakelists_stage e pkg repodir st) (\<lambda>st.
     and_then (sweep_stage repodir st) (\<lambda>st.
     and_then (shell_stage (git_add e) st) (\<lambda>st.
     shell_stage (git_commit e) st)))))"

text \<open>
  The run from line 81 on, started on the file system that a successful \<^verbatim>\<open>git clone\<close>
  (lines 84 to 94) has left.
\<close>

definition repodir_of :: "env \<Rightarrow> args \<Rightarrow> string" where
  "repodir_of e a = sourcedir e @ ''/'' @ package a"

definition run :: "env \<Rightarrow> args \<Rightarrow> node \<Rightarrow> failure + state" where
  "run e a f =
     and_then (post_clone_check (package a) (repodir_of e a) f) (\<lambda>f.
     and_then (scaffold e a (repodir_of e a) (initial_state f)) (\<lambda>st.
     finalize e (package a) (repodir_of e a) st))"

section \<open>Vocabulary of the statements\<close>

text \<open>
  The substitution as the specification words it: a list of pairs (token, replacement)
  applied one after the other, each to the result of the one before.
\<close>

definition ordered_replacements :: "(string \<times> string) list \<Rightarrow> string \<Rightarrow> string" where
  "ordered_replacements steps s = foldl (\<lambda>s (old, new). py_replace old new s) s steps"

text \<open>Concrete inputs on which the statements below are evaluated.\<close>

definition example_workarea :: node where
  "example_workarea = Dir [(''work'', Dir [(''foobar'', Dir [(''notes.txt'', File ''keep me'')])])]"

definition example_templates :: "string \<Rightarrow> string option" where
  "example_templates = map_of
     [(''RenameMe.hpp'', ''PACKAGE_RENAMEME package::RenameMe renameme''),
      (''RenameMe.cpp'', ''package::RenameMe::RenameMe()''),
      (''renameme.jsonnet'', ''package.renameme''),
      (''renamemeinfo.jsonnet'', ''package.renamemeinfo''),
      (''renameme.cxx'', ''int main() { } // renameme''),
      (''Placeholder_test.cxx'', ''// Placeholder''),
      (''module.cpp'', ''// module''),
      (''renameme.cpp'', ''// renameme'')]"

definition example_env :: env where
  "example_env =
     \<lparr>sourcedir = ''/work'', templates = example_templates, generation_time = ''Wed Nov  4'',
      git_mv = (\<lambda>t. (0, t)), curl = (\<lambda>t. (0, t)), git_add = (\<lambda>t. (0, t)),
      git_commit = (\<lambda>t. (0, t))\<rparr>"

definition example_clone :: node where
  "example_clone = Dir [(''work'', Dir [(''utils'', Dir [(''.git'', Dir [])])])]"

definition example_dirs :: node where
  "example_dirs =
     Dir [(''work'', Dir [(''utils'', Dir
       [(''.git'', Dir []),
        (''plugins'', Dir [(''.gitkeep'', File [])]),
        (''schema'', Dir [(''utils'', Dir [(''.gitkeep'', File [])])])])])]"

definition allowed_clone_contents :: "string set set" where
  "allowed_clone_contents = {{''.git''}, {''.git'', ''README.md''}, {''.git'', ''docs''}}"

definition marker_rule :: "string list \<Rightarrow> string list \<Rightarrow> bool" where
  "marker_rule before after =
     (if before = [''.gitkeep''] then after = [''.gitkeep'']
      else ''.gitkeep'' \<notin> set after \<and> set after = set before - {''.gitkeep''})"

definition swept_entries :: "(string \<times> node) list \<Rightarrow> (string \<times> node) list \<Rightarrow> bool" where
  "swept_entries es es0 =
     (es0 = es \<and> (map fst es = [''.gitkeep''] \<or> map_of es ''.gitkeep'' = None)
      \<or> es0 = AList.delete ''.gitkeep'' es \<and> map fst es \<noteq> [''.gitkeep'']
         \<and> (\<exists>c. map_of es ''.gitkeep'' = Some (File c)))"

definition marker_alone_or_absent :: "string list \<Rightarrow> bool" where
  "marker_alone_or_absent names = (names = [''.gitkeep''] \<or> ''.gitkeep'' \<notin> set names)"

definition example_filled :: node where
  "example_filled =
     Dir [(''work'', Dir [(''utils'', Dir
       [(''.git'', Dir []),
        (''plugins'', Dir [(''.gitkeep'', File []), (''Foo.hpp'', File ''UTILS_FOO utils::Foo foo'')]),
        (''schema'', Dir [(''utils'', Dir [(''.gitkeep'', File [])])])])])]"

definition example_args :: args where
  "example_args = parse_args [] ''utils''"

definition example_busy_clone :: node where
  "example_busy_clone =
     Dir [(''work'', Dir [(''utils'', Dir [(''.git'', Dir []), (''main.c'', File ''int x;'')])])]"




section \<open>Facts about paths and the file system\<close>

lemmas case_defs = upper_def lower_def upper_char_def lower_char_def ascii_lowercase_def
  ascii_uppercase_def

lemmas fs_defs = path_exists_def listdir_def read_file_def split_path_def write_file_def
  put_entry_def rmtree_def drop_dir_def makedirs_def make_package_dir_def copyfile_def

lemma and_then_Inr_iff: "and_then x f = Inr y \<longleftrightarrow> (\<exists>v. x = Inr v \<and> f v = Inr y)"
  by (cases x) auto





lemma lookup_append:
  "lookup t (p @ q) = (case lookup t p of None \<Rightarrow> None | Some n \<Rightarrow> lookup n q)"
proof (induction p arbitrary: t)
  case Nil
  show ?case by simp
next
  case (Cons x p)
  show ?case by (cases t) (auto simp: Cons.IH split: option.splits)
qed

lemma at_path_result:
  "at_path f t p = Inr u \<Longrightarrow> \<exists>n n'. lookup t p = Some n \<and> f n = Inr n' \<and> lookup u p = Some n'"
proof (induction p arbitrary: t u)
  case Nil
  then show ?case by simp
next
  case (Cons x p)
  then show ?case
    by (cases t) (auto simp: and_then_Inr_iff update_conv' split: option.splits)
qed

lemma at_path_succeeds:
  "lookup t p = Some n \<Longrightarrow> f n = Inr n' \<Longrightarrow> \<exists>u. at_path f t p = Inr u"
proof (induction p arbitrary: t)
  case Nil
  then show ?case by simp
next
  case (Cons x p)
  then show ?case
    by (cases t) (fastforce split: option.splits)+
qed

lemma at_path_frame:
  "at_path f t p = Inr u \<Longrightarrow> \<not> prefix p q \<Longrightarrow> \<not> prefix q p \<Longrightarrow> lookup u q = lookup t q"
proof (induction p arbitrary: t u q)
  case Nil
  then show ?case by simp
next
  case (Cons x p)
  obtain y q' where q: "q = y # q'" using Cons.prems(3) by (cases q) auto
  from Cons.prems(1) obtain es where t: "t = Dir es" by (cases t) auto
  from Cons.prems(1) t obtain n n' where n: "map_of es x = Some n" "at_path f n p = Inr n'"
     "u = Dir (AList.update x n' es)"
    by (auto simp: and_then_Inr_iff split: option.splits)
  show ?case
  proof (cases "y = x")
    case True
    with Cons.prems q have "\<not> prefix p q'" "\<not> prefix q' p" by auto
    from Cons.IH[OF n(2) this] show ?thesis using True q t n by (simp add: update_conv')
  next
    case False
    then show ?thesis using q t n by (simp add: update_conv')
  qed
qed

lemma snoc_cases: "p \<noteq> [] \<Longrightarrow> \<exists>d l. p = d @ [l]"
  by (metis append_butlast_last_id)

lemma write_file_at: "split_path p = d @ [l] \<Longrightarrow> write_file t p c = at_path (put_entry l c) t d"
  by (cases d) (auto simp: write_file_def)

lemma rmtree_at: "split_path p = d @ [l] \<Longrightarrow> rmtree t p = at_path (drop_dir l) t d"
  by (cases d) (auto simp: rmtree_def)

lemma write_file_nonempty: "write_file t p c = Inr u \<Longrightarrow> split_path p \<noteq> []"
  by (auto simp: write_file_def)

lemma rmtree_nonempty: "rmtree t p = Inr u \<Longrightarrow> split_path p \<noteq> []"
  by (auto simp: rmtree_def)

lemma put_entry_result:
  "put_entry l c n = Inr n' \<Longrightarrow> \<exists>es. n = Dir es \<and> n' = Dir (AList.update l (File c) es)
     \<and> (\<forall>d. map_of es l \<noteq> Some (Dir d))"
  by (auto simp: put_entry_def split: node.splits option.splits)

lemma drop_dir_result:
  "drop_dir l n = Inr n' \<Longrightarrow> \<exists>es d. n = Dir es \<and> n' = Dir (AList.delete l es) \<and> map_of es l = Some (Dir d)"
  by (auto simp: drop_dir_def split: node.splits option.splits)

lemma write_file_read:
  assumes "write_file t p c = Inr u"
  shows "read_file u p = Some c"
proof -
  from snoc_cases[OF write_file_nonempty[OF assms]] obtain d l where sp: "split_path p = d @ [l]"
    by blast
  with assms have ap: "at_path (put_entry l c) t d = Inr u"
    by (simp add: write_file_at)
  from at_path_result[OF ap] obtain n n' where
    n: "put_entry l c n = Inr n'" "lookup u d = Some n'"
    by blast
  from put_entry_result[OF n(1)] n(2) have "lookup u (d @ [l]) = Some (File c)"
    by (auto simp: lookup_append update_conv')
  with sp show ?thesis by (simp add: read_file_def)
qed

lemma rmtree_gone:
  assumes "rmtree t p = Inr u"
  shows "\<not> path_exists u p"
proof -
  from snoc_cases[OF rmtree_nonempty[OF assms]] obtain d l where sp: "split_path p = d @ [l]"
    by blast
  with assms have ap: "at_path (drop_dir l) t d = Inr u"
    by (simp add: rmtree_at)
  from at_path_result[OF ap] obtain n n' where
    n: "drop_dir l n = Inr n'" "lookup u d = Some n'"
    by blast
  from drop_dir_result[OF n(1)] n(2) have "lookup u (d @ [l]) = None"
    by (auto simp: lookup_append delete_conv')
  with sp show ?thesis by (simp add: path_exists_def)
qed

lemma rmtree_succeeds:
  assumes "lookup t (split_path p) = Some (Dir es)" "split_path p \<noteq> []"
  shows "\<exists>u. rmtree t p = Inr u"
proof -
  from snoc_cases[OF assms(2)] obtain d l where sp: "split_path p = d @ [l]"
    by blast
  with assms(1) obtain n where n: "lookup t d = Some n" "lookup n [l] = Some (Dir es)"
    by (auto simp: lookup_append split: option.splits)
  from n(2) have "\<exists>n'. drop_dir l n = Inr n'"
    by (cases n) (auto simp: drop_dir_def split: option.splits)
  with at_path_succeeds[OF n(1)] sp show ?thesis
    by (auto simp: rmtree_at)
qed

lemma match_here_literal:
  "CHR ''.'' \<notin> set pat \<Longrightarrow> match_here (pattern_atoms pat) s \<longleftrightarrow> prefix pat s"
proof (induction pat arbitrary: s)
  case Nil
  show ?case by (simp add: pattern_atoms_def)
next
  case (Cons a pat)
  then have "match_here (pattern_atoms pat) r \<longleftrightarrow> prefix pat r" for r by simp
  then show ?case using Cons.prems
    by (cases s) (auto simp: pattern_atoms_def pattern_atom_def)
qed

lemma search_from_literal:
  "CHR ''.'' \<notin> set pat \<Longrightarrow> search_from (pattern_atoms pat) s \<longleftrightarrow> occurs pat s"
  by (induction s) (auto simp: match_here_literal)

lemma match_here_self: "match_here (pattern_atoms pat) (pat @ rest)"
  by (induction pat) (auto simp: pattern_atoms_def pattern_atom_def)

lemma search_from_append: "match_here as s \<Longrightarrow> search_from as (r @ s)"
  by (induction r) (auto, cases s, auto)

lemma search_from_repodir: "search_from (pattern_atoms (''/'' @ pkg)) (sd @ ''/'' @ pkg)"
  using search_from_append[OF match_here_self[of "''/'' @ pkg" "[]"], of sd] by simp

























lemma cleanup_and_exit_result:
  assumes "lookup t (split_path (sd @ ''/'' @ pkg)) = Some (Dir es)" "split_path (sd @ ''/'' @ pkg) \<noteq> []"
  shows "\<exists>u. (cleanup_and_exit pkg t (sd @ ''/'' @ pkg) :: failure + 'a) = Inl (Exit1 u)
           \<and> rmtree t (sd @ ''/'' @ pkg) = Inr u \<and> \<not> path_exists u (sd @ ''/'' @ pkg)"
proof -
  from rmtree_succeeds[OF assms] obtain u where u: "rmtree t (sd @ ''/'' @ pkg) = Inr u" by blast
  have "cleanup pkg t (sd @ ''/'' @ pkg) = Inr u"
    using assms(1) u search_from_repodir[of pkg sd] by (simp add: cleanup_def path_exists_def)
  with u rmtree_gone[OF u] show ?thesis by (simp add: cleanup_and_exit_def)
qed





lemma distinct_singleton: "distinct xs \<Longrightarrow> set xs = {a} \<Longrightarrow> xs = [a]"
  by (cases xs) (auto simp: insert_eq_iff dest: subset_singletonD)

lemma sort_pair:
  fixes a b :: string
  assumes "distinct xs" "a < b"
  shows "sort xs = [a, b] \<longleftrightarrow> set xs = {a, b}"
proof
  assume "sort xs = [a, b]"
  then have "set (sort xs) = {a, b}" by simp
  then show "set xs = {a, b}" by simp
next
  assume s: "set xs = {a, b}"
  have "sorted (sort xs)" "distinct (sort xs)" "set (sort xs) = set [a, b]"
    using assms(1) s by auto
  moreover have "sorted [a, b]" "distinct [a, b]" using assms(2) by auto
  ultimately show "sort xs = [a, b]"
    by (metis sorted_distinct_set_unique)
qed

lemma clone_check_condition:
  assumes "distinct names"
  shows "(names \<noteq> [''.git''] \<and> sort names \<noteq> [''.git'', ''README.md''] \<and> sort names \<noteq> [''.git'', ''docs''])
          \<longleftrightarrow> set names \<notin> allowed_clone_contents"
proof -
  have a: "names = [''.git''] \<longleftrightarrow> set names = {''.git''}"
  proof
    assume "names = [''.git'']" then show "set names = {''.git''}" by simp
  next
    assume "set names = {''.git''}" with assms show "names = [''.git'']"
      by (rule distinct_singleton)
  qed
  have l1: "(''.git'' :: string) < ''README.md''" by simp
  have l2: "(''.git'' :: string) < ''docs''" by simp
  have b: "sort names = [''.git'', ''README.md''] \<longleftrightarrow> set names = {''.git'', ''README.md''}"
    by (rule sort_pair[OF assms l1])
  have c: "sort names = [''.git'', ''docs''] \<longleftrightarrow> set names = {''.git'', ''docs''}"
    by (rule sort_pair[OF assms l2])
  have "set names \<in> allowed_clone_contents \<longleftrightarrow>
          set names = {''.git''} \<or> set names = {''.git'', ''README.md''} \<or> set names = {''.git'', ''docs''}"
    unfolding allowed_clone_contents_def by (simp only: insert_iff empty_iff simp_thms)
  with a b c show ?thesis by blast
qed

lemma sweep_entries_result:
  "sweep_entries es = Inr es' \<Longrightarrow>
     map fst es' = map fst es
     \<and> (\<forall>k n. map_of es k = Some n \<longrightarrow> (\<exists>n'. map_of es' k = Some n' \<and> sweep n = Inr n'))
     \<and> (\<forall>k n'. map_of es' k = Some n' \<longrightarrow> (\<exists>n. map_of es k = Some n \<and> sweep n = Inr n'))"
proof (induction es arbitrary: es')
  case Nil
  then show ?case by simp
next
  case (Cons e es)
  obtain name n where e: "e = (name, n)" by (cases e)
  from Cons.prems e obtain n' es1 where s: "sweep n = Inr n'" "sweep_entries es = Inr es1"
    "es' = (name, n') # es1"
    by (auto simp: and_then_Inr_iff)
  from Cons.IH[OF s(2)] s(1) s(3) e show ?case by auto
qed

lemma and_then_Dir: "and_then x (\<lambda>es'. Inr (Dir es')) = Inr u \<longleftrightarrow> (\<exists>es'. x = Inr es' \<and> u = Dir es')"
  by (cases x) auto

lemma sweep_Dir_result:
  assumes "sweep (Dir es) = Inr u"
  shows "\<exists>es0 es'. u = Dir es' \<and> sweep_entries es0 = Inr es' \<and> swept_entries es es0"
proof (cases "map fst es = [''.gitkeep'']")
  case True
  with assms have "and_then (sweep_entries es) (\<lambda>es'. Inr (Dir es')) = Inr u" by simp
  then obtain es' where e: "sweep_entries es = Inr es'" "u = Dir es'"
    unfolding and_then_Dir by (elim exE conjE)
  have "swept_entries es es" using True by (simp add: swept_entries_def)
  with e show ?thesis by (intro exI[of _ es] exI[of _ es']) simp
next
  case False
  show ?thesis
  proof (cases "map_of es ''.gitkeep''")
    case None
    with False assms have "and_then (sweep_entries es) (\<lambda>es'. Inr (Dir es')) = Inr u" by simp
    then obtain es' where e: "sweep_entries es = Inr es'" "u = Dir es'"
      unfolding and_then_Dir by (elim exE conjE)
    have "swept_entries es es" using None by (simp add: swept_entries_def)
    with e show ?thesis by (intro exI[of _ es] exI[of _ es']) simp
  next
    case (Some n)
    show ?thesis
    proof (cases n)
      case (File c)
      with Some False assms
      have "and_then (sweep_entries (AList.delete ''.gitkeep'' es)) (\<lambda>es'. Inr (Dir es')) = Inr u"
        by simp
      then obtain es' where e: "sweep_entries (AList.delete ''.gitkeep'' es) = Inr es'" "u = Dir es'"
        unfolding and_then_Dir by (elim exE conjE)
      have "swept_entries es (AList.delete ''.gitkeep'' es)"
        using Some File False by (simp add: swept_entries_def)
      with e show ?thesis by (intro exI[of _ "AList.delete ''.gitkeep'' es"] exI[of _ es']) simp
    next
      case (Dir d)
      with Some False assms show ?thesis by simp
    qed
  qed
qed

lemma sweep_is_dir: "sweep t = Inr (Dir es') \<Longrightarrow> \<exists>es. t = Dir es"
  by (cases t) auto

lemma swept_entries_names:
  assumes "swept_entries es es0"
  shows "marker_rule (map fst es) (map fst es0)"
proof -
  from assms consider
      "es0 = es" "map fst es = [''.gitkeep'']"
    | "es0 = es" "map fst es \<noteq> [''.gitkeep'']" "map_of es ''.gitkeep'' = None"
    | "es0 = AList.delete ''.gitkeep'' es" "map fst es \<noteq> [''.gitkeep'']"
    unfolding swept_entries_def by argo
  then show ?thesis
  proof cases
    case 1
    then show ?thesis by (simp add: marker_rule_def)
  next
    case 2
    from 2(3) have "''.gitkeep'' \<notin> set (map fst es)" by (simp add: map_of_eq_None_iff)
    with 2 show ?thesis by (simp add: marker_rule_def)
  next
    case 3
    then show ?thesis by (simp add: marker_rule_def delete_keys)
  qed
qed

lemma swept_entries_map_of:
  assumes "swept_entries es es0" "map_of es x = Some n" "lookup n q = Some (Dir ds)"
  shows "map_of es0 x = Some n"
proof (cases "es0 = es")
  case True
  with assms(2) show ?thesis by simp
next
  case False
  with assms(1) obtain c where d: "es0 = AList.delete ''.gitkeep'' es" "map_of es ''.gitkeep'' = Some (File c)"
    unfolding swept_entries_def by (elim disjE conjE exE) simp_all
  have "x \<noteq> ''.gitkeep''"
  proof
    assume "x = ''.gitkeep''"
    with d(2) assms(2) have "n = File c" by simp
    with assms(3) show False by (cases q) simp_all
  qed
  with d(1) assms(2) show ?thesis by (simp add: delete_conv')
qed

lemma swept_entries_map_of_back:
  assumes "swept_entries es es0" "map_of es0 x = Some n"
  shows "map_of es x = Some n"
proof (cases "es0 = es")
  case True
  with assms(2) show ?thesis by simp
next
  case False
  with assms(1) have "es0 = AList.delete ''.gitkeep'' es"
    unfolding swept_entries_def by (elim disjE conjE exE) simp_all
  with assms(2) show ?thesis by (simp add: delete_conv' split: if_splits)
qed

lemma sweep_lookup:
  "sweep t = Inr u \<Longrightarrow> lookup t p = Some (Dir es) \<Longrightarrow>
     \<exists>es'. lookup u p = Some (Dir es') \<and> marker_rule (map fst es) (map fst es')"
proof (induction p arbitrary: t u)
  case Nil
  then have t: "t = Dir es" by simp
  from sweep_Dir_result[OF Nil.prems(1)[unfolded t]] obtain es0 es' where
    r: "u = Dir es'" "sweep_entries es0 = Inr es'" "swept_entries es es0"
    by blast
  from sweep_entries_result[OF r(2)] have names: "map fst es' = map fst es0" by blast
  with swept_entries_names[OF r(3)] r(1) show ?case by simp
next
  case (Cons x q)
  from Cons.prems(2) obtain ts where t: "t = Dir ts" by (cases t) auto
  with Cons.prems(2) obtain n where n: "map_of ts x = Some n" "lookup n q = Some (Dir es)"
    by (auto split: option.splits)
  from sweep_Dir_result[OF Cons.prems(1)[unfolded t]] obtain es0 es' where
    r: "u = Dir es'" "sweep_entries es0 = Inr es'" "swept_entries ts es0"
    by blast
  from swept_entries_map_of[OF r(3) n] have "map_of es0 x = Some n" .
  with sweep_entries_result[OF r(2)] obtain n' where n': "map_of es' x = Some n'" "sweep n = Inr n'"
    by blast
  from Cons.IH[OF n'(2) n(2)] n'(1) r(1) show ?case by simp
qed

lemma sweep_lookup_back:
  "sweep t = Inr u \<Longrightarrow> lookup u p = Some (Dir es') \<Longrightarrow> \<exists>es. lookup t p = Some (Dir es)"
proof (induction p arbitrary: t u)
  case Nil
  then show ?case using sweep_is_dir by simp
next
  case (Cons x q)
  from Cons.prems(2) obtain us where u: "u = Dir us" by (cases u) auto
  with Cons.prems(2) obtain n' where n': "map_of us x = Some n'" "lookup n' q = Some (Dir es')"
    by (auto split: option.splits)
  from sweep_is_dir Cons.prems(1) u obtain ts where t: "t = Dir ts" by blast
  from sweep_Dir_result[OF Cons.prems(1)[unfolded t]] u obtain es0 where
    r: "sweep_entries es0 = Inr us" "swept_entries ts es0"
    by auto
  from sweep_entries_result[OF r(1)] n'(1) obtain n where n: "map_of es0 x = Some n" "sweep n = Inr n'"
    by blast
  from swept_entries_map_of_back[OF r(2) n(1)] have "map_of ts x = Some n" .
  with Cons.IH[OF n(2) n'(2)] t show ?case by simp
qed

lemma marker_rule_after: "marker_rule before after \<Longrightarrow> marker_alone_or_absent after"
  by (simp add: marker_rule_def marker_alone_or_absent_def split: if_splits)





















section \<open>The claims\<close>

text \<open>
  C2. The text written for a module template is the template's text after five literal
  replacements applied in this order: RenameMe by the module name, PACKAGE by the
  upper-cased package name, RENAMEME by the upper-cased module name, package by the
  lower-cased package name, renameme by the lower-cased module name. Whenever one pass
  of the loop over the templates (lines 169 to 198) completes, the destination file holds
  exactly that text.
\<close>

theorem module_file_content:
  assumes "module_file e pkg repodir module t src_filename = Inr u"
  shows "\<exists>dest tmpl. dest_filename pkg repodir module src_filename = Inr dest
          \<and> templates e src_filename = Some tmpl
          \<and> read_file u dest = Some (ordered_replacements
               [(''RenameMe'', module), (''PACKAGE'', upper pkg), (''RENAMEME'', upper module),
                (''package'', lower pkg), (''renameme'', lower module)] tmpl)"
proof -
  from assms obtain dest t1 tmpl where
    d: "dest_filename pkg repodir module src_filename = Inr dest"
    and c: "copyfile e t src_filename dest = Inr t1"
    and x: "templates e src_filename = Some tmpl"
    and w: "write_file t1 dest (instantiate pkg module tmpl) = Inr u"
    by (auto simp: module_file_def and_then_Inr_iff split: option.splits)
  have "instantiate pkg module tmpl = ordered_replacements
               [(''RenameMe'', module), (''PACKAGE'', upper pkg), (''RENAMEME'', upper module),
                (''package'', lower pkg), (''renameme'', lower module)] tmpl"
    by (simp add: instantiate_def ordered_replacements_def)
  with write_file_read[OF w] d x show ?thesis by simp
qed

theorem module_file_content_witness:
  "module_file example_env ''utils'' ''/work/utils'' ''Foo'' example_dirs ''RenameMe.hpp'' =
     Inr (Dir [(''work'', Dir [(''utils'', Dir
       [(''.git'', Dir []),
        (''plugins'', Dir [(''.gitkeep'', File []), (''Foo.hpp'', File ''UTILS_FOO utils::Foo foo'')]),
        (''schema'', Dir [(''utils'', Dir [(''.gitkeep'', File [])])])])])])
   \<and> (\<exists>dest tmpl. dest_filename ''utils'' ''/work/utils'' ''Foo'' ''RenameMe.hpp'' = Inr dest
          \<and> templates example_env ''RenameMe.hpp'' = Some tmpl
          \<and> read_file (Dir [(''work'', Dir [(''utils'', Dir
       [(''.git'', Dir []),
        (''plugins'', Dir [(''.gitkeep'', File []), (''Foo.hpp'', File ''UTILS_FOO utils::Foo foo'')]),
        (''schema'', Dir [(''utils'', Dir [(''.gitkeep'', File [])])])])])]) dest =
             Some (ordered_replacements
               [(''RenameMe'', ''Foo''), (''PACKAGE'', upper ''utils''), (''RENAMEME'', upper ''Foo''),
                (''package'', lower ''utils''), (''renameme'', lower ''Foo'')] tmpl))"
proof -
  have h: "module_file example_env ''utils'' ''/work/utils'' ''Foo'' example_dirs ''RenameMe.hpp'' =
     Inr (Dir [(''work'', Dir [(''utils'', Dir
       [(''.git'', Dir []),
        (''plugins'', Dir [(''.gitkeep'', File []), (''Foo.hpp'', File ''UTILS_FOO utils::Foo foo'')]),
        (''schema'', Dir [(''utils'', Dir [(''.gitkeep'', File [])])])])])])"
    by (simp add: module_file_def dest_filename_def path_suffix_def example_env_def
        example_templates_def example_dirs_def instantiate_def fs_defs case_defs)
  from module_file_content[OF h] h show ?thesis by blast
qed

text \<open>
  C3, as the code has it. For a package name whose characters are all literal in a
  regular expression, \<open>cleanup\<close> deletes the path exactly when the path is an existing
  directory (other than the root) and the text made of a slash and the package name
  occurs somewhere in the path string; the deletion is that of \<open>rmtree\<close> and leaves no
  such path. When the path does not exist, or the text does not occur in it, the
  assertion fails and, as every failure, leaves the file system as it was. The last
  segment of the path is not compared with the package name.
\<close>

theorem cleanup_deletes_on_substring_match:
  assumes "plain_name pkg" "CHR ''.'' \<notin> set pkg"
  shows "((\<exists>u. cleanup pkg t p = Inr u) \<longleftrightarrow>
            (\<exists>es. lookup t (split_path p) = Some (Dir es)) \<and> split_path p \<noteq> [] \<and> occurs (''/'' @ pkg) p)
       \<and> (\<forall>u. cleanup pkg t p = Inr u \<longrightarrow> rmtree t p = Inr u \<and> \<not> path_exists u p)
       \<and> (\<not> path_exists t p \<or> \<not> occurs (''/'' @ pkg) p \<longrightarrow> cleanup pkg t p = Inl AssertionError)"
proof -
  have lit: "search_from (pattern_atoms (''/'' @ pkg)) p \<longleftrightarrow> occurs (''/'' @ pkg) p"
    using assms(2) by (intro search_from_literal) simp
  have del: "rmtree t p = Inr u \<Longrightarrow> (\<exists>es. lookup t (split_path p) = Some (Dir es)) \<and> split_path p \<noteq> []" for u
  proof -
    assume r: "rmtree t p = Inr u"
    from snoc_cases[OF rmtree_nonempty[OF r]] obtain d l where sp: "split_path p = d @ [l]" by blast
    with r have "at_path (drop_dir l) t d = Inr u" by (simp add: rmtree_at)
    from at_path_result[OF this] obtain n n' where n: "lookup t d = Some n" "drop_dir l n = Inr n'" by blast
    from drop_dir_result[OF n(2)] n(1) sp show ?thesis by (auto simp: lookup_append)
  qed
  have a: "(\<exists>u. cleanup pkg t p = Inr u) \<longleftrightarrow>
            (\<exists>es. lookup t (split_path p) = Some (Dir es)) \<and> split_path p \<noteq> [] \<and> occurs (''/'' @ pkg) p"
    using del rmtree_succeeds[of t p] lit by (auto simp: cleanup_def path_exists_def split: if_splits)
  have b: "\<forall>u. cleanup pkg t p = Inr u \<longrightarrow> rmtree t p = Inr u \<and> \<not> path_exists u p"
    using rmtree_gone by (auto simp: cleanup_def split: if_splits)
  have c: "\<not> path_exists t p \<or> \<not> occurs (''/'' @ pkg) p \<longrightarrow> cleanup pkg t p = Inl AssertionError"
    using lit by (auto simp: cleanup_def)
  from a b c show ?thesis by blast
qed

theorem cleanup_deletes_on_substring_match_witness:
  "plain_name ''foo'' \<and> CHR ''.'' \<notin> set ''foo''
   \<and> (\<exists>u. cleanup ''foo'' example_workarea ''/work/foobar'' = Inr u)
   \<and> occurs (''/'' @ ''foo'') ''/work/foobar''
   \<and> cleanup ''foo'' example_workarea ''/work/other'' = Inl AssertionError"
proof -
  have h: "plain_name ''foo''" "CHR ''.'' \<notin> set ''foo''"
    by (simp_all add: plain_name_def re_special_def)
  have e: "(\<exists>es. lookup example_workarea (split_path ''/work/foobar'') = Some (Dir es))
           \<and> split_path ''/work/foobar'' \<noteq> [] \<and> occurs (''/'' @ ''foo'') ''/work/foobar''"
    by (simp add: example_workarea_def split_path_def)
  have n: "\<not> path_exists example_workarea ''/work/other''"
    by (simp add: example_workarea_def fs_defs)
  from cleanup_deletes_on_substring_match[OF h, of example_workarea "''/work/foobar''"] e
       cleanup_deletes_on_substring_match[OF h, of example_workarea "''/work/other''"] n h
  show ?thesis by blast
qed

text \<open>
  C3 as the claim words it fails: with the package foo, the existing directory
  /work/foobar is deleted although its last segment is foobar.
\<close>

theorem cleanup_deletes_other_directory:
  "cleanup ''foo'' example_workarea ''/work/foobar'' = Inr (Dir [(''work'', Dir [])])
   \<and> last (split_path ''/work/foobar'') \<noteq> ''foo''"
  by (simp add: cleanup_def example_workarea_def pattern_atoms_def pattern_atom_def
      AList.delete_eq fs_defs)

text \<open>
  C10. A later replacement also rewrites text that an earlier one inserted. The module
  name Mypackage is accepted and contains the token package; step 1 puts it where
  RenameMe stood, step 4 then rewrites it, and the result does not contain the module
  name. Likewise Xrenameme is rewritten by step 5.
\<close>

theorem later_steps_rewrite_inserted_name:
  "module_name_ok ''Mypackage'' \<and> occurs ''package'' ''Mypackage''
   \<and> py_replace ''RenameMe'' ''Mypackage'' ''class RenameMe;'' = ''class Mypackage;''
   \<and> instantiate ''foo'' ''Mypackage'' ''class RenameMe;'' = ''class Myfoo;''
   \<and> \<not> occurs ''Mypackage'' (instantiate ''foo'' ''Mypackage'' ''class RenameMe;'')
   \<and> module_name_ok ''Xrenameme'' \<and> occurs ''renameme'' ''Xrenameme''
   \<and> instantiate ''foo'' ''Xrenameme'' ''class RenameMe;'' = ''class Xxrenameme;''
   \<and> \<not> occurs ''Xrenameme'' (instantiate ''foo'' ''Xrenameme'' ''class RenameMe;'')"
  by (simp add: module_name_ok_def instantiate_def case_defs)











text \<open>
  C6. Right after the clone, for a clone directory whose listing has no name twice: when
  the set of names is one of {.git}, {.git, README.md}, {.git, docs}, the run goes on
  with the scaffold, on the file system as the clone left it; for any other contents the
  run ends before anything is written, with exit status 1, and what it leaves is the
  file system of the clone with the clone directory removed by \<open>rmtree\<close>.
\<close>

theorem post_clone_check_gate:
  assumes "listdir t (repodir_of e a) = Inr names" "distinct names"
    and "plain_name (package a)" "split_path (repodir_of e a) \<noteq> []"
  shows "(set names \<in> allowed_clone_contents \<longrightarrow>
            run e a t = and_then (scaffold e a (repodir_of e a) (initial_state t))
                          (finalize e (package a) (repodir_of e a)))
       \<and> (set names \<notin> allowed_clone_contents \<longrightarrow>
            (\<exists>u. run e a t = Inl (Exit1 u) \<and> rmtree t (repodir_of e a) = Inr u
                  \<and> \<not> path_exists u (repodir_of e a)))"
proof (intro conjI impI)
  assume "set names \<in> allowed_clone_contents"
  with clone_check_condition[OF assms(2)] assms(1)
  have "post_clone_check (package a) (repodir_of e a) t = Inr t"
    by (auto simp: post_clone_check_def)
  then show "run e a t = and_then (scaffold e a (repodir_of e a) (initial_state t))
                          (finalize e (package a) (repodir_of e a))"
    by (simp add: run_def)
next
  assume n: "set names \<notin> allowed_clone_contents"
  from assms(1) obtain es where es: "lookup t (split_path (repodir_of e a)) = Some (Dir es)"
    by (auto simp: listdir_def split: option.splits node.splits)
  from cleanup_and_exit_result[of t "sourcedir e" "package a" es] es assms(4)
  obtain u where u: "(cleanup_and_exit (package a) t (repodir_of e a) :: failure + node) = Inl (Exit1 u)"
    "rmtree t (repodir_of e a) = Inr u" "\<not> path_exists u (repodir_of e a)"
    by (auto simp: repodir_of_def)
  from n clone_check_condition[OF assms(2)] assms(1) u(1)
  have "post_clone_check (package a) (repodir_of e a) t = Inl (Exit1 u)"
    by (auto simp: post_clone_check_def)
  with u show "\<exists>u. run e a t = Inl (Exit1 u) \<and> rmtree t (repodir_of e a) = Inr u
                  \<and> \<not> path_exists u (repodir_of e a)"
    by (simp add: run_def)
qed

text \<open>
  C7. After the sweep of lines 320 to 323, for every directory below the clone
  directory: a directory that held exactly the marker still holds exactly the marker;
  any other directory holds no marker and otherwise the names it held (\<open>marker_rule\<close>).
  Every directory found after the sweep was one before, so in every directory the
  marker is either the only entry or absent.
\<close>

theorem sweep_leaves_marker_only_in_empty_directories:
  assumes "sweep_stage repodir st = Inr st'"
  shows "(\<forall>q es. lookup (fs st) (split_path repodir @ q) = Some (Dir es) \<longrightarrow>
            (\<exists>es'. lookup (fs st') (split_path repodir @ q) = Some (Dir es')
                 \<and> marker_rule (map fst es) (map fst es')))
       \<and> (\<forall>q es'. lookup (fs st') (split_path repodir @ q) = Some (Dir es') \<longrightarrow>
            marker_alone_or_absent (map fst es'))"
proof -
  from assms obtain u where u: "at_path sweep (fs st) (split_path repodir) = Inr u" "fs st' = u"
    by (auto simp: sweep_stage_def and_then_Inr_iff)
  from at_path_result[OF u(1)] obtain n n' where
    n: "lookup (fs st) (split_path repodir) = Some n" "sweep n = Inr n'"
       "lookup u (split_path repodir) = Some n'"
    by blast
  have fwd: "\<exists>es'. lookup (fs st') (split_path repodir @ q) = Some (Dir es')
                 \<and> marker_rule (map fst es) (map fst es')"
    if "lookup (fs st) (split_path repodir @ q) = Some (Dir es)" for q es
  proof -
    from that n(1) have "lookup n q = Some (Dir es)" by (simp add: lookup_append)
    from sweep_lookup[OF n(2) this] n(3) u(2) show ?thesis by (simp add: lookup_append)
  qed
  have bwd: "marker_alone_or_absent (map fst es')"
    if "lookup (fs st') (split_path repodir @ q) = Some (Dir es')" for q es'
  proof -
    from that n(3) u(2) have l: "lookup n' q = Some (Dir es')" by (simp add: lookup_append)
    from sweep_lookup_back[OF n(2) l] obtain es where "lookup n q = Some (Dir es)" by blast
    from sweep_lookup[OF n(2) this] l show ?thesis
      by (auto dest: marker_rule_after)
  qed
  from fwd bwd show ?thesis by blast
qed

theorem sweep_leaves_marker_only_in_empty_directories_witness:
  "sweep_stage ''/work/utils'' (initial_state example_filled) =
     Inr (initial_state (Dir [(''work'', Dir [(''utils'', Dir
       [(''.git'', Dir []),
        (''plugins'', Dir [(''Foo.hpp'', File ''UTILS_FOO utils::Foo foo'')]),
        (''schema'', Dir [(''utils'', Dir [(''.gitkeep'', File [])])])])])]))
   \<and> (\<exists>es'. lookup (fs (initial_state (Dir [(''work'', Dir [(''utils'', Dir
       [(''.git'', Dir []),
        (''plugins'', Dir [(''Foo.hpp'', File ''UTILS_FOO utils::Foo foo'')]),
        (''schema'', Dir [(''utils'', Dir [(''.gitkeep'', File [])])])])])])))
          (split_path ''/work/utils'' @ [''plugins'']) = Some (Dir es')
        \<and> marker_rule (map fst [(''.gitkeep'', File []), (''Foo.hpp'', File ''UTILS_FOO utils::Foo foo'')])
              (map fst es'))"
proof -
  have h: "sweep_stage ''/work/utils'' (initial_state example_filled) =
     Inr (initial_state (Dir [(''work'', Dir [(''utils'', Dir
       [(''.git'', Dir []),
        (''plugins'', Dir [(''Foo.hpp'', File ''UTILS_FOO utils::Foo foo'')]),
        (''schema'', Dir [(''utils'', Dir [(''.gitkeep'', File [])])])])])]))"
    by (simp add: sweep_stage_def initial_state_def example_filled_def split_path_def AList.delete_eq)
  have l: "lookup (fs (initial_state example_filled)) (split_path ''/work/utils'' @ [''plugins''])
           = Some (Dir [(''.gitkeep'', File []), (''Foo.hpp'', File ''UTILS_FOO utils::Foo foo'')])"
    by (simp add: initial_state_def example_filled_def split_path_def)
  from sweep_leaves_marker_only_in_empty_directories[OF h]
  have "\<forall>q es. lookup (fs (initial_state example_filled)) (split_path ''/work/utils'' @ q) = Some (Dir es) \<longrightarrow>
            (\<exists>es'. lookup (fs (initial_state (Dir [(''work'', Dir [(''utils'', Dir
       [(''.git'', Dir []),
        (''plugins'', Dir [(''Foo.hpp'', File ''UTILS_FOO utils::Foo foo'')]),
        (''schema'', Dir [(''utils'', Dir [(''.gitkeep'', File [])])])])])]))) (split_path ''/work/utils'' @ q) = Some (Dir es')
                 \<and> marker_rule (map fst es) (map fst es'))"
    by (rule conjunct1)
  from this[rule_format, OF l] h show ?thesis by (rule conjI[rotated])
qed

theorem post_clone_check_gate_witness:
  "set [''.git'', ''main.c''] \<notin> allowed_clone_contents
   \<and> (\<exists>u. run example_env example_args example_busy_clone = Inl (Exit1 u)
          \<and> rmtree example_busy_clone (repodir_of example_env example_args) = Inr u
          \<and> \<not> path_exists u (repodir_of example_env example_args))
   \<and> set [''.git''] \<in> allowed_clone_contents
   \<and> run example_env example_args example_clone =
        and_then (scaffold example_env example_args (repodir_of example_env example_args)
                    (initial_state example_clone))
          (finalize example_env (package example_args) (repodir_of example_env example_args))"
proof -
  have rd: "repodir_of example_env example_args = ''/work/utils''" "package example_args = ''utils''"
    by (simp_all add: repodir_of_def example_env_def example_args_def parse_args_def)
  have l1: "listdir example_busy_clone (repodir_of example_env example_args) = Inr [''.git'', ''main.c'']"
    unfolding rd by (simp add: listdir_def example_busy_clone_def split_path_def)
  have l2: "listdir example_clone (repodir_of example_env example_args) = Inr [''.git'']"
    unfolding rd by (simp add: listdir_def example_clone_def split_path_def)
  have d1: "distinct [''.git'', ''main.c'']" and d2: "distinct [''.git'']" by simp_all
  have p: "plain_name (package example_args)"
    unfolding rd by (simp add: plain_name_def re_special_def)
  have s: "split_path (repodir_of example_env example_args) \<noteq> []"
    unfolding rd by (simp add: split_path_def)
  have n1: "set [''.git'', ''main.c''] \<notin> allowed_clone_contents"
    using clone_check_condition[OF d1] by simp
  have n2: "set [''.git''] \<in> allowed_clone_contents"
    using clone_check_condition[OF d2] by simp
  have a: "\<exists>u. run example_env example_args example_busy_clone = Inl (Exit1 u)
          \<and> rmtree example_busy_clone (repodir_of example_env example_args) = Inr u
          \<and> \<not> path_exists u (repodir_of example_env example_args)"
    by (rule post_clone_check_gate[OF l1 d1 p s, THEN conjunct2, rule_format, OF n1])
  have b: "run example_env example_args example_clone =
        and_then (scaffold example_env example_args (repodir_of example_env example_args)
                    (initial_state example_clone))
          (finalize example_env (package example_args) (repodir_of example_env example_args))"
    by (rule post_clone_check_gate[OF l2 d2 p s, THEN conjunct1, rule_format, OF n2])
  from n1 a n2 b show ?thesis by (intro conjI)
qed



end
